theory Spec2Isabelle
  imports Complex_Main "HOL-Library.FSet" "HOL-Library.Sublist"
begin

section \<open>Conventions of the embedding\<close>

text \<open>
  The similarity pipeline exists in three copies: \<^verbatim>\<open>tools/normalization.py\<close>,
  \<^verbatim>\<open>tools/normalization_claude.py\<close> and \<^verbatim>\<open>tools_backup/normalization.py\<close>. Each function
  below is the translation of one Python function and keeps its name; a name that two
  copies share carries the suffix \<open>_backup\<close> for the copy under \<^verbatim>\<open>tools_backup\<close>.

  \<^item> A Python \<^verbatim>\<open>str\<close> is a \<^typ>\<open>string\<close>: the bytes of its UTF-8 encoding, which is how the
    files are read and how a shingle is handed to the digest. An ASCII character is one
    \<^typ>\<open>char\<close>. The character classes of the patterns are ASCII classes or their
    complements, so they act on the bytes as they act on the code points; the
    exceptions are \<^verbatim>\<open>\d\<close> and \<^verbatim>\<open>\s\<close>, which are modelled on the ASCII range (Python also
    accepts the decimal digits and the white space of other scripts).
  \<^item> A Python \<^verbatim>\<open>set\<close> is an \<^typ>\<open>'a fset\<close>, \<^verbatim>\<open>len\<close> of a set is \<^const>\<open>fcard\<close>.
  \<^item> A Python \<^verbatim>\<open>dict\<close> that is only looked up is a map; a \<^verbatim>\<open>dict\<close> that is iterated is the
    list of its items in insertion order.
  \<^item> A Python \<^verbatim>\<open>float\<close> is a \<^typ>\<open>real\<close>: the scores are quotients of small integers and
    the theorems below concern their exact values.
  \<^item> An exception is a value \<open>Inl e\<close> of a sum type.
  \<^item> \<^verbatim>\<open>hashlib.sha1(...).hexdigest()\<close> is library code; every function that hashes takes
    the digest as its first argument \<open>sha1\<close>.
\<close>

datatype py_error = ValueError | ZeroDivisionError

subsection \<open>Characters that need an escape\<close>

definition dquote :: char where "dquote = CHR 0x22"
definition squote :: char where "squote = CHR 0x27"
definition backtick :: char where "backtick = CHR 0x60"
definition backslash :: char where "backslash = CHR 0x5C"
definition newline :: char where "newline = CHR 0x0A"

subsection \<open>Strings and slices\<close>

text \<open>\<^verbatim>\<open>s.startswith(p)\<close> and \<^verbatim>\<open>s.endswith(p)\<close>.\<close>

definition startswith :: "string \<Rightarrow> string \<Rightarrow> bool" where
  "startswith s p = prefix p s"

definition endswith :: "string \<Rightarrow> string \<Rightarrow> bool" where
  "endswith s p = suffix p s"

text \<open>\<^verbatim>\<open>sep.join(xs)\<close>.\<close>

fun join :: "string \<Rightarrow> string list \<Rightarrow> string" where
  "join sep [] = []"
| "join sep [x] = x"
| "join sep (x # y # ys) = x @ sep @ join sep (y # ys)"

text \<open>
  \<^verbatim>\<open>xs[i:j]\<close>: a negative bound counts from the end, and both bounds are clamped to
  the list.
\<close>

definition py_slice :: "'a list \<Rightarrow> int \<Rightarrow> int \<Rightarrow> 'a list" where
  "py_slice xs i j =
     (let n = int (length xs);
          lo = (if i < 0 then max 0 (i + n) else min i n);
          hi = (if j < 0 then max 0 (j + n) else min j n)
      in take (nat (hi - lo)) (drop (nat lo) xs))"

text \<open>\<^verbatim>\<open>str(n)\<close> for a natural number: its decimal digits.\<close>

definition digit_char :: "nat \<Rightarrow> char" where
  "digit_char d = char_of (48 + d)"

function str_nat :: "nat \<Rightarrow> string" where
  "str_nat n = (if n < 10 then [digit_char n] else str_nat (n div 10) @ [digit_char (n mod 10)])"
  by pat_completeness auto
termination
  by (relation "measure (\<lambda>n. n)") auto

declare str_nat.simps [simp del]

section \<open>Regular expressions as the \<^verbatim>\<open>re\<close> module runs them\<close>

text \<open>
  The patterns of the source use literals, character classes, sequence, ordered
  alternation and the greedy and the lazy star; one pattern of
  \<^verbatim>\<open>tools/normalization_claude.py\<close> also uses \<^verbatim>\<open>$\<close> under \<^verbatim>\<open>MULTILINE\<close> (\<open>Eol\<close>: the end of the
  text or the place before a newline) and a negative lookahead for one character
  (\<open>NotAhead\<close>), another one a capturing group (\<open>Grp\<close>). \<^verbatim>\<open>re\<close> is a backtracking matcher: it
  tries the alternatives from left to right, a greedy star tries one more iteration
  before it tries to stop, a lazy star the other way round, and the first way through
  the pattern that succeeds is the match.
\<close>

datatype cls_item =
    Ch char
  | Rng char char
  | Digit
  | WS
  | NonWS

datatype regex =
    Eps
  | Lit char
  | Dot
  | In "cls_item list"
  | NotIn "cls_item list"
  | Seq regex regex
  | Alt regex regex
  | Star regex
  | LazyStar regex
  | Eol
  | NotAhead char
  | Grp regex

text \<open>\<^verbatim>\<open>\s\<close> on the ASCII range: tab to carriage return, the four separators, space.\<close>

definition is_space :: "char \<Rightarrow> bool" where
  "is_space c = ((9 \<le> (of_char c :: nat) \<and> (of_char c :: nat) \<le> 13)
                 \<or> (28 \<le> (of_char c :: nat) \<and> (of_char c :: nat) \<le> 32))"

fun in_item :: "char \<Rightarrow> cls_item \<Rightarrow> bool" where
  "in_item c (Ch d) = (c = d)"
| "in_item c (Rng lo hi) = ((of_char lo :: nat) \<le> of_char c \<and> (of_char c :: nat) \<le> of_char hi)"
| "in_item c Digit = (48 \<le> (of_char c :: nat) \<and> (of_char c :: nat) \<le> 57)"
| "in_item c WS = is_space c"
| "in_item c NonWS = (\<not> is_space c)"

definition in_cls :: "char \<Rightarrow> cls_item list \<Rightarrow> bool" where
  "in_cls c items = list_ex (in_item c) items"

text \<open>
  \<open>ends r s\<close> lists, in the order in which the backtracking matcher reaches them, the
  rests of \<open>s\<close> that remain after each way of matching \<open>r\<close> at the start of \<open>s\<close>. The
  head of the list is the match that \<^verbatim>\<open>re\<close> reports. An iteration of a star that consumes
  nothing ends the repetition.
\<close>

fun ends :: "regex \<Rightarrow> string \<Rightarrow> string list" where
  "ends Eps s = [s]"
| "ends (Lit c) s = (case s of [] \<Rightarrow> [] | x # xs \<Rightarrow> if x = c then [xs] else [])"
| "ends Dot s = (case s of [] \<Rightarrow> [] | x # xs \<Rightarrow> if x \<noteq> newline then [xs] else [])"
| "ends (In items) s = (case s of [] \<Rightarrow> [] | x # xs \<Rightarrow> if in_cls x items then [xs] else [])"
| "ends (NotIn items) s = (case s of [] \<Rightarrow> [] | x # xs \<Rightarrow> if in_cls x items then [] else [xs])"
| "ends (Seq r1 r2) s = concat (map (ends r2) (ends r1 s))"
| "ends (Alt r1 r2) s = ends r1 s @ ends r2 s"
| "ends (Star r) s =
     concat (map (\<lambda>s'. if length s' < length s then ends (Star r) s' else []) (ends r s)) @ [s]"
| "ends (LazyStar r) s =
     s # concat (map (\<lambda>s'. if length s' < length s then ends (LazyStar r) s' else []) (ends r s))"
| "ends Eol s = (case s of [] \<Rightarrow> [s] | x # xs \<Rightarrow> if x = newline then [s] else [])"
| "ends (NotAhead c) s = (case s of [] \<Rightarrow> [s] | x # xs \<Rightarrow> if x = c then [] else [s])"
| "ends (Grp r) s = ends r s"

text \<open>
  The equations of the two stars call \<open>ends\<close> on the same pattern again; they are unfolded
  by hand.
\<close>

declare ends.simps(8) [simp del]
declare ends.simps(9) [simp del]

text \<open>\<^verbatim>\<open>r+\<close>, \<^verbatim>\<open>r?\<close>, a literal string, and a chain of alternatives.\<close>

definition Plus :: "regex \<Rightarrow> regex" where
  "Plus r = Seq r (Star r)"

definition Opt :: "regex \<Rightarrow> regex" where
  "Opt r = Alt r Eps"

fun Str :: "string \<Rightarrow> regex" where
  "Str [] = Eps"
| "Str [c] = Lit c"
| "Str (c # cs) = Seq (Lit c) (Str cs)"

fun Seqs :: "regex list \<Rightarrow> regex" where
  "Seqs [] = Eps"
| "Seqs [r] = r"
| "Seqs (r # rs) = Seq r (Seqs rs)"

fun Alts :: "regex list \<Rightarrow> regex" where
  "Alts [] = NotIn [WS, NonWS]"
| "Alts [r] = r"
| "Alts (r # rs) = Alt r (Alts rs)"

text \<open>\<^verbatim>\<open>re.fullmatch(r, s)\<close> succeeds when some way through \<open>r\<close> consumes all of \<open>s\<close>.\<close>

definition fullmatch :: "regex \<Rightarrow> string \<Rightarrow> bool" where
  "fullmatch r s = ([] \<in> set (ends r s))"

text \<open>\<^verbatim>\<open>re.match(r, s)\<close> succeeds when \<open>r\<close> matches at the start of \<open>s\<close>.\<close>

definition re_match :: "regex \<Rightarrow> string \<Rightarrow> bool" where
  "re_match r s = (ends r s \<noteq> [])"

text \<open>
  \<^verbatim>\<open>r.findall(s)\<close> for a pattern without groups: scan from the left; where the pattern
  matches, emit the matched text and go on behind it; where it does not, skip one
  character. (A pattern that matches the empty string emits it and moves on by one
  character; no pattern of the source can.)
\<close>

function findall :: "regex \<Rightarrow> string \<Rightarrow> string list" where
  "findall p s =
     (case ends p s of
        [] \<Rightarrow> (case s of [] \<Rightarrow> [] | c # s' \<Rightarrow> findall p s')
      | r # _ \<Rightarrow>
          if length r < length s then take (length s - length r) s # findall p r
          else [] # (case s of [] \<Rightarrow> [] | c # s' \<Rightarrow> findall p s'))"
  by pat_completeness auto
termination
  by (relation "measure (\<lambda>(p, s). length s)") auto

declare findall.simps [simp del]

text \<open>
  \<open>group1 r s\<close> lists the same ways of matching as \<open>ends r s\<close>, each with the text its
  group captured, if the group took part. (No pattern of the source has a group under a
  star.)
\<close>

fun group1 :: "regex \<Rightarrow> string \<Rightarrow> (string \<times> string option) list" where
  "group1 (Grp r) s = map (\<lambda>s'. (s', Some (take (length s - length s') s))) (ends r s)"
| "group1 (Seq r1 r2) s =
     concat (map (\<lambda>(s1, g1).
               map (\<lambda>(s2, g2). (s2, case g2 of None \<Rightarrow> g1 | Some v \<Rightarrow> Some v)) (group1 r2 s1))
             (group1 r1 s))"
| "group1 (Alt r1 r2) s = group1 r1 s @ group1 r2 s"
| "group1 r s = map (\<lambda>s'. (s', None)) (ends r s)"

text \<open>
  \<^verbatim>\<open>re.findall(r, s)\<close> for a pattern with exactly one group: the scan of \<open>findall\<close>, but what
  is emitted for a match is the text of the group, and the empty string when the group
  took no part in the match.
\<close>

function findall_group1 :: "regex \<Rightarrow> string \<Rightarrow> string list" where
  "findall_group1 p s =
     (case group1 p s of
        [] \<Rightarrow> (case s of [] \<Rightarrow> [] | c # s' \<Rightarrow> findall_group1 p s')
      | (r, g) # _ \<Rightarrow>
          if length r < length s
          then (case g of None \<Rightarrow> [] | Some v \<Rightarrow> v) # findall_group1 p r
          else (case g of None \<Rightarrow> [] | Some v \<Rightarrow> v)
               # (case s of [] \<Rightarrow> [] | c # s' \<Rightarrow> findall_group1 p s'))"
  by pat_completeness auto
termination
  by (relation "measure (\<lambda>(p, s). length s)") auto

declare findall_group1.simps [simp del]

text \<open>
  \<^verbatim>\<open>re.sub(r, "", s)\<close>: the same scan; the matched text is dropped and every other
  character is kept.
\<close>

function re_sub_empty :: "regex \<Rightarrow> string \<Rightarrow> string" where
  "re_sub_empty p s =
     (case ends p s of
        [] \<Rightarrow> (case s of [] \<Rightarrow> [] | c # s' \<Rightarrow> c # re_sub_empty p s')
      | r # _ \<Rightarrow>
          if length r < length s then re_sub_empty p r
          else (case s of [] \<Rightarrow> [] | c # s' \<Rightarrow> c # re_sub_empty p s'))"
  by pat_completeness auto
termination
  by (relation "measure (\<lambda>(p, s). length s)") auto

declare re_sub_empty.simps [simp del]

text \<open>
  \<^verbatim>\<open>re.sub(r, "", s)\<close> for a pattern \<^verbatim>\<open>(?m)^p\<close>: the pattern can match only at the start of
  the text and behind a newline. \<open>prev\<close> is the character before the place of the scan.
\<close>

function re_sub_empty_bol :: "regex \<Rightarrow> char option \<Rightarrow> string \<Rightarrow> string" where
  "re_sub_empty_bol p prev s =
     (if prev = None \<or> prev = Some newline then
        (case ends p s of
           [] \<Rightarrow> (case s of [] \<Rightarrow> [] | c # s' \<Rightarrow> c # re_sub_empty_bol p (Some c) s')
         | r # _ \<Rightarrow>
             if length r < length s
             then re_sub_empty_bol p (Some (last (take (length s - length r) s))) r
             else (case s of [] \<Rightarrow> [] | c # s' \<Rightarrow> c # re_sub_empty_bol p (Some c) s'))
      else (case s of [] \<Rightarrow> [] | c # s' \<Rightarrow> c # re_sub_empty_bol p (Some c) s'))"
  by pat_completeness auto
termination
  by (relation "measure (\<lambda>(p, prev, s). length s)") auto

declare re_sub_empty_bol.simps [simp del]


section \<open>Configuration (\<^verbatim>\<open>tools/normalization.py\<close>)\<close>

definition JAVA_KEYWORDS :: "string set" where
  "JAVA_KEYWORDS = set [
      ''abstract'', ''assert'', ''boolean'', ''break'', ''byte'', ''case'', ''catch'',
      ''char'', ''class'', ''const'', ''continue'', ''default'', ''do'', ''double'',
      ''else'', ''enum'', ''extends'', ''final'', ''finally'', ''float'', ''for'', ''goto'',
      ''if'', ''implements'', ''import'', ''instanceof'', ''int'', ''interface'', ''long'',
      ''native'', ''new'', ''package'', ''private'', ''protected'', ''public'', ''return'',
      ''short'', ''static'', ''strictfp'', ''super'', ''switch'', ''synchronized'',
      ''this'', ''throw'', ''throws'', ''transient'', ''try'', ''void'', ''volatile'',
      ''while'', ''true'', ''false'', ''null'']"

definition JS_KEYWORDS :: "string set" where
  "JS_KEYWORDS = set [
      ''break'', ''case'', ''catch'', ''class'', ''const'', ''continue'', ''debugger'',
      ''default'', ''delete'', ''do'', ''else'', ''export'', ''extends'', ''finally'',
      ''for'', ''function'', ''if'', ''import'', ''in'', ''instanceof'', ''let'', ''new'',
      ''return'', ''super'', ''switch'', ''this'', ''throw'', ''try'', ''typeof'', ''var'',
      ''void'', ''while'', ''with'', ''yield'', ''await'', ''async'', ''of'', ''from'',
      ''interface'', ''implements'', ''package'', ''private'', ''protected'', ''public'',
      ''enum'', ''type'', ''as'', ''any'', ''never'', ''unknown'', ''readonly'', ''global'',
      ''namespace'', ''declare'', ''module'']"

definition KEYWORDS :: "string set" where
  "KEYWORDS = JAVA_KEYWORDS \<union> JS_KEYWORDS"

section \<open>Tokenizer\<close>

text \<open>
  The alternatives of \<^verbatim>\<open>token_pattern\<close>, in the order of the source. \<^verbatim>\<open>[\s\S]\<close> is the
  class of every character; \<^verbatim>\<open>.\<close> is every character but the newline.
\<close>

definition block_comment :: regex where
  "block_comment = Seqs [Str ''/*'', LazyStar (In [WS, NonWS]), Str ''*/'']"

definition line_comment :: regex where
  "line_comment = Seqs [Str ''//'', Star Dot]"

definition template_literal :: regex where
  "template_literal =
     Seqs [Lit backtick,
           Star (Alt (Seq (Lit backslash) Dot) (NotIn [Ch backslash, Ch backtick])),
           Lit backtick]"

definition quoted_string :: "char \<Rightarrow> regex" where
  "quoted_string q =
     Seqs [Lit q,
           Star (NotIn [Ch q, Ch backslash, Ch newline]),
           Star (Seqs [Lit backslash, Dot, Star (NotIn [Ch q, Ch backslash, Ch newline])]),
           Lit q]"

definition identifier_re :: regex where
  "identifier_re =
     Seq (In [Rng CHR ''A'' CHR ''Z'', Rng CHR ''a'' CHR ''z'', Ch CHR ''_''])
         (Star (In [Rng CHR ''A'' CHR ''Z'', Rng CHR ''a'' CHR ''z'',
                    Rng CHR ''0'' CHR ''9'', Ch CHR ''_'']))"

definition decimal_re :: regex where
  "decimal_re = Seqs [Plus (In [Digit]), Lit CHR ''.'', Plus (In [Digit])]"

definition integer_re :: regex where
  "integer_re = Plus (In [Digit])"

definition multi_char_ops :: regex where
  "multi_char_ops =
     Alts (map Str [''=='', ''!='', ''<='', ''>='', ''++'', ''--'', ''&&'', ''||'',
                    ''->'', ''=>'', '':=''])"

definition single_char_symbols :: regex where
  "single_char_symbols =
     In (map Ch (''~!%^&*()+={}[]|'' @ [backslash] @ '':;'' @ [dquote, squote] @ ''<>,.?/-''))"

definition token_pattern :: regex where
  "token_pattern =
     Alts [block_comment, line_comment, template_literal,
           quoted_string dquote, quoted_string squote,
           identifier_re, decimal_re, integer_re,
           multi_char_ops, single_char_symbols]"

text \<open>\<^verbatim>\<open>_comment_re\<close>: \<^verbatim>\<open>^(/\*|\s*//)\<close>.\<close>

definition comment_re :: regex where
  "comment_re = Alt (Str ''/*'') (Seq (Star (In [WS])) (Str ''//''))"

definition tokenize :: "string \<Rightarrow> string list" where
  "tokenize code =
     filter (\<lambda>t. t \<noteq> [] \<and> \<not> re_match comment_re t) (findall token_pattern code)"

text \<open>
  The tokenizer of \<^verbatim>\<open>tools_backup/normalization.py\<close>: the same alternatives without the
  two comments and the template literal; a token survives when \<^verbatim>\<open>t.strip()\<close> is not empty.
\<close>

definition token_pattern_backup :: regex where
  "token_pattern_backup =
     Alts [quoted_string dquote, quoted_string squote,
           identifier_re, decimal_re, integer_re,
           multi_char_ops, single_char_symbols]"



section \<open>Normalization\<close>

record norm_state =
  id_map :: "string \<rightharpoonup> string"
  next_id :: nat
  norm_out :: "string list"

definition is_string_token :: "string \<Rightarrow> bool" where
  "is_string_token tok =
     ((startswith tok [dquote] \<and> endswith tok [dquote])
      \<or> (startswith tok [squote] \<and> endswith tok [squote])
      \<or> (startswith tok [backtick] \<and> endswith tok [backtick]))"

definition number_re :: regex where
  "number_re = Alt decimal_re integer_re"

text \<open>The body of the loop of \<^verbatim>\<open>normalize\<close>: one token, one appended canonical token.\<close>

definition normalize_step :: "string set \<Rightarrow> norm_state \<Rightarrow> string \<Rightarrow> norm_state" where
  "normalize_step keywords st tok =
     (if is_string_token tok then st\<lparr>norm_out := norm_out st @ [''STR'']\<rparr>
      else if tok \<in> keywords then st\<lparr>norm_out := norm_out st @ [tok]\<rparr>
      else if fullmatch number_re tok then st\<lparr>norm_out := norm_out st @ [''NUM'']\<rparr>
      else if fullmatch identifier_re tok then
        (case id_map st tok of
           None \<Rightarrow>
             st\<lparr>id_map := (id_map st)(tok \<mapsto> ''ID'' @ str_nat (next_id st)),
                next_id := next_id st + 1,
                norm_out := norm_out st @ [''ID'' @ str_nat (next_id st)]\<rparr>
         | Some v \<Rightarrow> st\<lparr>norm_out := norm_out st @ [v]\<rparr>)
      else st\<lparr>norm_out := norm_out st @ [tok]\<rparr>)"

definition normalize :: "string set \<Rightarrow> string list \<Rightarrow> string list \<times> (string \<rightharpoonup> string)" where
  "normalize keywords tokens =
     (let st = foldl (normalize_step keywords)
                 \<lparr>id_map = Map.empty, next_id = 1, norm_out = []\<rparr> tokens
      in (norm_out st, id_map st))"

section \<open>Fingerprinting\<close>

text \<open>The separator \<^verbatim>\<open>"\u241F"\<close>, in UTF-8.\<close>

definition unit_sep :: string where
  "unit_sep = [CHR 0xE2, CHR 0x90, CHR 0x9F]"

text \<open>\<^verbatim>\<open>fingerprints_from_norm\<close> of \<^verbatim>\<open>tools/normalization.py\<close> (and of the backup copy).\<close>

definition fingerprints_from_norm :: "(string \<Rightarrow> 'h) \<Rightarrow> string list \<Rightarrow> int \<Rightarrow> 'h fset" where
  "fingerprints_from_norm sha1 norm_tokens k =
     (let n = int (length norm_tokens)
      in fold (\<lambda>i fps. finsert (sha1 (join unit_sep (py_slice norm_tokens (int i) (int i + k)))) fps)
           [0 ..< nat (max 0 (n - k + 1))] {||})"

text \<open>\<^verbatim>\<open>fingerprint_tokens\<close> of \<^verbatim>\<open>tools/normalization_claude.py\<close>.\<close>

definition fingerprint_tokens ::
  "(string \<Rightarrow> 'h) \<Rightarrow> string list \<Rightarrow> int \<Rightarrow> py_error + 'h fset" where
  "fingerprint_tokens sha1 normalized_tokens k =
     (if k \<le> 0 then Inl ValueError
      else if int (length normalized_tokens) < k then
        (if length normalized_tokens = 0 then Inr {||}
         else Inr {|sha1 (join unit_sep normalized_tokens)|})
      else
        Inr (fold (\<lambda>i fingerprints.
                     finsert (sha1 (join unit_sep (py_slice normalized_tokens (int i) (int i + k))))
                       fingerprints)
               [0 ..< nat (int (length normalized_tokens) - k + 1)] {||}))"

section \<open>Jaccard similarity\<close>

text \<open>\<^verbatim>\<open>jaccard\<close> of \<^verbatim>\<open>tools/normalization.py\<close> (and of the backup copy).\<close>

definition jaccard :: "'h fset \<Rightarrow> 'h fset \<Rightarrow> real" where
  "jaccard a b =
     (if a = {||} \<and> b = {||} then 1
      else if a = {||} \<or> b = {||} then 0
      else (let inter = a |\<inter>| b; union = a |\<union>| b
            in if union \<noteq> {||} then real (fcard inter) / real (fcard union) else 0))"

text \<open>\<^verbatim>\<open>jaccard_similarity\<close> of \<^verbatim>\<open>tools/normalization_claude.py\<close>.\<close>

definition jaccard_similarity :: "'h fset \<Rightarrow> 'h fset \<Rightarrow> real" where
  "jaccard_similarity set_a set_b =
     (if set_a = {||} \<and> set_b = {||} then 0
      else if set_a = {||} \<or> set_b = {||} then 0
      else (let intersection = fcard (set_a |\<inter>| set_b); union = fcard (set_a |\<union>| set_b)
            in if union > 0 then real intersection / real union else 0))"

section \<open>Repository-level aggregation\<close>

text \<open>
  The value stored for a file in \<^verbatim>\<open>perA\<close> and \<^verbatim>\<open>perB\<close>:
  \<^verbatim>\<open>{"fingerprints": fps, "norm_len": len(norm)}\<close>. A repository is the list of the items
  of such a dictionary.
\<close>

record 'h file_info =
  fingerprints :: "'h fset"
  norm_len :: int

type_synonym 'h repo = "(string \<times> 'h file_info) list"

text \<open>\<^verbatim>\<open>aggregate\<close> of \<^verbatim>\<open>tools/normalization.py\<close>.\<close>

definition aggregate :: "'h repo \<Rightarrow> 'h repo \<Rightarrow> real" where
  "aggregate repoA repoB =
     (let totwA = sum_list (map (\<lambda>info. max 1 (norm_len info)) (map snd repoA));
          sumwA = foldl (\<lambda>sumw (relA, infoA).
                     let best = foldl (\<lambda>best infoB.
                                   max best (jaccard (fingerprints infoA) (fingerprints infoB)))
                                 0 (map snd repoB);
                         w = max 1 (norm_len infoA)
                     in sumw + best * real_of_int w) 0 repoA;
          scoreA = (if totwA \<noteq> 0 then sumwA / real_of_int totwA else 0);
          totwB = sum_list (map (\<lambda>info. max 1 (norm_len info)) (map snd repoB));
          sumwB = foldl (\<lambda>sumw (relB, infoB).
                     let best = foldl (\<lambda>best infoA.
                                   max best (jaccard (fingerprints infoB) (fingerprints infoA)))
                                 0 (map snd repoA);
                         w = max 1 (norm_len infoB)
                     in sumw + best * real_of_int w) 0 repoB;
          scoreB = (if totwB \<noteq> 0 then sumwB / real_of_int totwB else 0)
      in (scoreA + scoreB) / 2)"

text \<open>
  \<^verbatim>\<open>aggregate\<close> of \<^verbatim>\<open>tools_backup/normalization.py\<close>. \<^verbatim>\<open>max\<close> of an empty generator raises
  \<^verbatim>\<open>ValueError\<close>, a division by zero raises \<^verbatim>\<open>ZeroDivisionError\<close>.
\<close>

fun py_max :: "real list \<Rightarrow> py_error + real" where
  "py_max [] = Inl ValueError"
| "py_max (x # xs) = Inr (foldl max x xs)"

definition true_div :: "real \<Rightarrow> real \<Rightarrow> py_error + real" where
  "true_div a b = (if b = 0 then Inl ZeroDivisionError else Inr (a / b))"

fun weighted_sum_backup :: "'h repo \<Rightarrow> 'h repo \<Rightarrow> real \<Rightarrow> py_error + real" where
  "weighted_sum_backup [] others sumw = Inr sumw"
| "weighted_sum_backup ((rel, info) # rest) others sumw =
     (case py_max (map (\<lambda>other. jaccard (fingerprints info) (fingerprints other))
                     (map snd others)) of
        Inl e \<Rightarrow> Inl e
      | Inr best \<Rightarrow>
          weighted_sum_backup rest others (sumw + best * real_of_int (max 1 (norm_len info))))"

definition aggregate_backup :: "'h repo \<Rightarrow> 'h repo \<Rightarrow> py_error + real" where
  "aggregate_backup repoA repoB =
     (let totwA = sum_list (map (\<lambda>info. max 1 (norm_len info)) (map snd repoA))
      in case weighted_sum_backup repoA repoB 0 of
           Inl e \<Rightarrow> Inl e
         | Inr sumwA \<Rightarrow>
             (case true_div sumwA (real_of_int totwA) of
                Inl e \<Rightarrow> Inl e
              | Inr scoreA \<Rightarrow>
                  (let totwB = sum_list (map (\<lambda>info. max 1 (norm_len info)) (map snd repoB))
                   in case weighted_sum_backup repoB repoA 0 of
                        Inl e \<Rightarrow> Inl e
                      | Inr sumwB \<Rightarrow>
                          (case true_div sumwB (real_of_int totwB) of
                             Inl e \<Rightarrow> Inl e
                           | Inr scoreB \<Rightarrow> Inr ((scoreA + scoreB) / 2)))))"

text \<open>\<^verbatim>\<open>aggregate_repo_similarity\<close> of \<^verbatim>\<open>tools/normalization_claude.py\<close>.\<close>

definition aggregate_repo_similarity :: "'h repo \<Rightarrow> 'h repo \<Rightarrow> real" where
  "aggregate_repo_similarity per_file_info_A per_file_info_B =
     (if per_file_info_A = [] \<or> per_file_info_B = [] then 0
      else
        (let (weighted_sum_A, total_weight_A) =
               foldl (\<lambda>(weighted_sum, total_weight) (path, info).
                        let best_score =
                              foldl (\<lambda>best_score (other_path, other_info).
                                       let sim = jaccard_similarity (fingerprints info)
                                                   (fingerprints other_info)
                                       in if sim > best_score then sim else best_score)
                                0 per_file_info_B;
                            weight = max 1 (norm_len info)
                        in (weighted_sum + best_score * real_of_int weight, total_weight + weight))
                 (0, 0) per_file_info_A;
             score_A = (if total_weight_A > 0
                        then weighted_sum_A / real_of_int total_weight_A else 0);
             (weighted_sum_B, total_weight_B) =
               foldl (\<lambda>(weighted_sum, total_weight) (path, info).
                        let best_score =
                              foldl (\<lambda>best_score (other_path, other_info).
                                       let sim = jaccard_similarity (fingerprints info)
                                                   (fingerprints other_info)
                                       in if sim > best_score then sim else best_score)
                                0 per_file_info_A;
                            weight = max 1 (norm_len info)
                        in (weighted_sum + best_score * real_of_int weight, total_weight + weight))
                 (0, 0) per_file_info_B;
             score_B = (if total_weight_B > 0
                        then weighted_sum_B / real_of_int total_weight_B else 0)
         in (score_A + score_B) / 2))"

text \<open>
  The directional aggregate as the specification words it: for each file of \<open>A\<close> the
  best score \<open>J\<close> against any file of \<open>B\<close>, weighted by \<open>max(1, normCount)\<close>; the weighted
  sum divided by the sum of the weights.
\<close>

definition directional_aggregate_spec ::
  "('h fset \<Rightarrow> 'h fset \<Rightarrow> real) \<Rightarrow> 'h repo \<Rightarrow> 'h repo \<Rightarrow> real" where
  "directional_aggregate_spec J A B =
     (\<Sum>f \<leftarrow> map snd A. real_of_int (max 1 (norm_len f))
                          * Max ((\<lambda>g. J (fingerprints f) (fingerprints g)) ` set (map snd B)))
     / (\<Sum>f \<leftarrow> map snd A. real_of_int (max 1 (norm_len f)))"

section \<open>The driver\<close>

text \<open>
  What \<^verbatim>\<open>main\<close> of \<^verbatim>\<open>tools/normalization.py\<close> does with the text of one file: the entry
  of \<^verbatim>\<open>results["per_file"]\<close> and the entry of \<^verbatim>\<open>perA\<close> or \<^verbatim>\<open>perB\<close>.
\<close>

record per_file_entry =
  raw_len :: nat
  entry_norm_len :: nat
  fingerprints_count :: nat
  entry_id_map :: "string \<rightharpoonup> string"
  first_norm_tokens :: "string list"

definition process_file :: "(string \<Rightarrow> 'h) \<Rightarrow> string \<Rightarrow> per_file_entry \<times> 'h file_info" where
  "process_file sha1 txt =
     (let toks = tokenize txt;
          (nrm, idmap) = normalize KEYWORDS toks;
          fps = fingerprints_from_norm sha1 nrm 5
      in (\<lparr>raw_len = length toks, entry_norm_len = length nrm,
            fingerprints_count = fcard fps, entry_id_map = idmap,
            first_norm_tokens = take 80 nrm\<rparr>,
          \<lparr>fingerprints = fps, norm_len = int (length nrm)\<rparr>))"

text \<open>The pairwise loop of \<^verbatim>\<open>main\<close>: one result for each file of A and each file of B.\<close>

record pair_result =
  fileA :: string
  fileB :: string
  jaccard_score :: real
  a_fp :: nat
  b_fp :: nat

definition pairs :: "'h repo \<Rightarrow> 'h repo \<Rightarrow> pair_result list" where
  "pairs perA perB =
     concat (map (\<lambda>(a, infoA).
               map (\<lambda>(b, infoB).
                      \<lparr>fileA = a, fileB = b,
                       jaccard_score = jaccard (fingerprints infoA) (fingerprints infoB),
                       a_fp = fcard (fingerprints infoA),
                       b_fp = fcard (fingerprints infoB)\<rparr>) perB) perA)"

section \<open>The pipeline of \<^verbatim>\<open>tools/normalization_claude.py\<close>\<close>

text \<open>
  \<^verbatim>\<open>remove_comments\<close>: three substitutions by the empty string, of \<^verbatim>\<open>/\*.*?\*/\<close> under
  \<^verbatim>\<open>DOTALL\<close> (where \<^verbatim>\<open>.\<close> is every character), of \<^verbatim>\<open>//.*\<close>, and of \<^verbatim>\<open>(?m)^\s*#(?!\!).*$\<close>.
\<close>

definition remove_comments :: "string \<Rightarrow> string" where
  "remove_comments code =
     (let code1 = re_sub_empty (Seqs [Str ''/*'', LazyStar (NotIn []), Str ''*/'']) code;
          code2 = re_sub_empty (Seqs [Str ''//'', Star Dot]) code1;
          code3 = re_sub_empty_bol
                    (Seqs [Star (In [WS]), Lit CHR ''#'', NotAhead CHR ''!'', Star Dot, Eol])
                    None code2
      in code3)"

text \<open>
  \<^verbatim>\<open>tokenize_code_generic\<close>. Its pattern has one group, \<^verbatim>\<open>(\.\d+)\<close>, so \<^verbatim>\<open>re.findall\<close> returns
  for every match the text of that group; no element is a tuple, and the loop that
  follows copies the list.
\<close>

definition token_pattern_generic :: regex where
  "token_pattern_generic =
     Alts [identifier_re,
           Seq (Plus (In [Digit])) (Opt (Grp (Seq (Lit CHR ''.'') (Plus (In [Digit]))))),
           Alts (map Str [''=='', ''!='', ''<='', ''>='', ''&&'', ''||'']),
           In (map Ch ''{}[]().,;:+-*/%<>=!&|^~'')]"

definition tokenize_code_generic :: "string \<Rightarrow> string list" where
  "tokenize_code_generic code = findall_group1 token_pattern_generic code"

text \<open>
  \<^verbatim>\<open>normalize_tokens\<close>. \<^verbatim>\<open>tok[0].isalpha()\<close> is modelled on the ASCII letters.
\<close>

definition number_generic_re :: regex where
  "number_generic_re = Seq (Plus (In [Digit])) (Opt (Grp (Seq (Lit CHR ''.'') (Plus (In [Digit])))))"

definition is_alpha :: "char \<Rightarrow> bool" where
  "is_alpha c = in_cls c [Rng CHR ''A'' CHR ''Z'', Rng CHR ''a'' CHR ''z'']"

definition normalize_tokens_step :: "string set \<Rightarrow> norm_state \<Rightarrow> string \<Rightarrow> norm_state" where
  "normalize_tokens_step language_keywords st tok =
     (if tok \<in> language_keywords then st\<lparr>norm_out := norm_out st @ [tok]\<rparr>
      else if fullmatch number_generic_re tok then st\<lparr>norm_out := norm_out st @ [''NUM'']\<rparr>
      else if tok \<noteq> [] \<and> (is_alpha (hd tok) \<or> hd tok = CHR ''_'') then
        (case id_map st tok of
           None \<Rightarrow>
             st\<lparr>id_map := (id_map st)(tok \<mapsto> ''ID'' @ str_nat (next_id st)),
                next_id := next_id st + 1,
                norm_out := norm_out st @ [''ID'' @ str_nat (next_id st)]\<rparr>
         | Some v \<Rightarrow> st\<lparr>norm_out := norm_out st @ [v]\<rparr>)
      else st\<lparr>norm_out := norm_out st @ [tok]\<rparr>)"

definition normalize_tokens ::
  "string list \<Rightarrow> string set \<Rightarrow> string list \<times> (string \<rightharpoonup> string)" where
  "normalize_tokens tokens language_keywords =
     (let st = foldl (normalize_tokens_step language_keywords)
                 \<lparr>id_map = Map.empty, next_id = 1, norm_out = []\<rparr> tokens
      in (norm_out st, id_map st))"

text \<open>\<^verbatim>\<open>d[key] = value\<close> on the items of a dictionary.\<close>

fun dict_set :: "('k \<times> 'v) list \<Rightarrow> 'k \<Rightarrow> 'v \<Rightarrow> ('k \<times> 'v) list" where
  "dict_set [] key v = [(key, v)]"
| "dict_set ((k', v') # rest) key v =
     (if k' = key then (k', v) # rest else (k', v') # dict_set rest key v)"

text \<open>
  \<^verbatim>\<open>process_repo\<close>, the function inside \<^verbatim>\<open>run_pipeline\<close>, on the relative paths of a
  repository with the text that \<^verbatim>\<open>read_file_text\<close> returns for each (the empty text when
  the file cannot be read). It fills \<^verbatim>\<open>per_file_info_A\<close> or \<^verbatim>\<open>per_file_info_B\<close>, here
  \<open>per_file_info\<close>. The body of the loop is a \<^verbatim>\<open>try\<close> block whose handler,
  \<^verbatim>\<open>except Exception\<close>, prints the error and goes on with the next file; the one call that
  can raise is \<^verbatim>\<open>fingerprint_tokens\<close>. The printed lines and the entries of
  \<^verbatim>\<open>per_file_details\<close> are left out, and the path separator is taken to be \<^verbatim>\<open>/\<close>, so that
  \<^verbatim>\<open>rel.replace(os.sep, '/')\<close> is \<open>rel\<close>. The keyword set of this file is the one of
  \<open>JAVA_KEYWORDS\<close> above, word for word.
\<close>

fun process_repo ::
  "(string \<Rightarrow> 'h) \<Rightarrow> int \<Rightarrow> (string \<times> string) list \<Rightarrow> 'h repo \<Rightarrow> 'h repo" where
  "process_repo sha1 k [] per_file_info = per_file_info"
| "process_repo sha1 k ((rel, raw) # rel_paths) per_file_info =
     (if raw = [] then process_repo sha1 k rel_paths per_file_info
      else
        (let raw_no_comments = remove_comments raw;
             raw_tokens = tokenize_code_generic raw_no_comments;
             (normalized_tokens, idmap) = normalize_tokens raw_tokens JAVA_KEYWORDS
         in case fingerprint_tokens sha1 normalized_tokens k of
              Inl e \<Rightarrow> process_repo sha1 k rel_paths per_file_info
            | Inr fps \<Rightarrow>
                process_repo sha1 k rel_paths
                  (dict_set per_file_info rel
                     \<lparr>fingerprints = fps, norm_len = int (length normalized_tokens)\<rparr>)))"

text \<open>
  \<^verbatim>\<open>run_pipeline\<close> from step 2 on, for the shingle size \<open>k\<close> of the command line: the two
  dictionaries, the number of pairwise comparisons and the overall similarity, as they
  stand when the function ends. Nothing before step 2 looks at \<open>k\<close>.
\<close>

record 'h pipeline_result =
  per_file_info_A :: "'h repo"
  per_file_info_B :: "'h repo"
  total_comparisons :: nat
  overall_sim :: real

definition run_pipeline ::
  "(string \<Rightarrow> 'h) \<Rightarrow> (string \<times> string) list \<Rightarrow> (string \<times> string) list \<Rightarrow> int
     \<Rightarrow> 'h pipeline_result" where
  "run_pipeline sha1 code_files_repo1 code_files_repo2 k =
     (let infoA = process_repo sha1 k code_files_repo1 [];
          infoB = process_repo sha1 k code_files_repo2 [];
          similarity_scores =
            concat (map (\<lambda>(a_rel, a_info).
                      map (\<lambda>(b_rel, b_info).
                             (a_rel, b_rel,
                              jaccard_similarity (fingerprints a_info) (fingerprints b_info)))
                        infoB) infoA);
          overall = aggregate_repo_similarity infoA infoB
      in \<lparr>per_file_info_A = infoA, per_file_info_B = infoB,
          total_comparisons = length similarity_scores, overall_sim = overall\<rparr>)"

section \<open>Notions used in the statements\<close>

text \<open>
  An identifier token is one that matches the identifier grammar and is no keyword: these
  are the tokens that reach the fourth branch of \<^verbatim>\<open>normalize\<close>. A renaming replaces each
  identifier token \<open>tok\<close> by \<open>\<rho> tok\<close> and leaves the other tokens alone.
\<close>

definition is_identifier_token :: "string set \<Rightarrow> string \<Rightarrow> bool" where
  "is_identifier_token keywords tok = (fullmatch identifier_re tok \<and> tok \<notin> keywords)"

definition rename :: "(string \<Rightarrow> string) \<Rightarrow> string set \<Rightarrow> string list \<Rightarrow> string list" where
  "rename \<rho> keywords tokens =
     map (\<lambda>tok. if is_identifier_token keywords tok then \<rho> tok else tok) tokens"

text \<open>A pattern is consuming when, by its shape, each of its matches takes a character.\<close>

fun consuming :: "regex \<Rightarrow> bool" where
  "consuming Eps = False"
| "consuming (Lit c) = True"
| "consuming Dot = True"
| "consuming (In items) = True"
| "consuming (NotIn items) = True"
| "consuming (Seq r1 r2) = (consuming r1 \<or> consuming r2)"
| "consuming (Alt r1 r2) = (consuming r1 \<and> consuming r2)"
| "consuming (Star r) = False"
| "consuming (LazyStar r) = False"
| "consuming Eol = False"
| "consuming (NotAhead c) = False"
| "consuming (Grp r) = consuming r"

text \<open>
  Two states of the loop of \<^verbatim>\<open>normalize\<close>, one on a sequence and one on its renaming,
  correspond when they have the same counter and output and the rename table of the
  second maps \<open>\<rho> tok\<close> to what the first maps \<open>tok\<close> to.
\<close>

definition renamed_states ::
  "(string \<Rightarrow> string) \<Rightarrow> string set \<Rightarrow> string set \<Rightarrow> norm_state \<Rightarrow> norm_state \<Rightarrow> bool" where
  "renamed_states \<rho> kw T st st' =
     (next_id st' = next_id st \<and> norm_out st' = norm_out st
      \<and> (\<forall>tok. tok \<in> T \<and> is_identifier_token kw tok
            \<longrightarrow> id_map st' (\<rho> tok) = id_map st tok))"

section \<open>Properties\<close>

subsection \<open>Jaccard similarity\<close>

lemma fcard_inter_le_union: "fcard (a |\<inter>| b) \<le> fcard (a |\<union>| b)"
  by (rule fcard_mono) auto

lemma fcard_union_pos: "a \<noteq> {||} \<Longrightarrow> 0 < fcard (a |\<union>| b)"
  by (cases "fcard (a |\<union>| b)") (simp_all add: fcard_0_eq)

lemma jaccard_bounds: "0 \<le> jaccard a b \<and> jaccard a b \<le> 1"
  using fcard_inter_le_union [of a b] fcard_union_pos [of a b]
  by (simp add: jaccard_def Let_def divide_le_eq_1)

lemma jaccard_similarity_bounds: "0 \<le> jaccard_similarity a b \<and> jaccard_similarity a b \<le> 1"
  using fcard_inter_le_union [of a b]
  by (simp add: jaccard_similarity_def Let_def divide_le_eq_1)

lemma jaccard_commute: "jaccard a b = jaccard b a"
  by (simp add: jaccard_def Let_def inf_commute sup_commute)

lemma jaccard_similarity_commute: "jaccard_similarity a b = jaccard_similarity b a"
  by (simp add: jaccard_similarity_def Let_def inf_commute sup_commute)

text \<open>
  Claim C5. For all fingerprint sets \<open>X\<close> and \<open>Y\<close> the pairwise Jaccard score lies between
  0 and 1 and does not depend on the order of its arguments. This holds for \<^verbatim>\<open>jaccard\<close>
  and for \<^verbatim>\<open>jaccard_similarity\<close>.
\<close>

theorem jaccard_bounds_and_symmetry:
  "0 \<le> jaccard X Y \<and> jaccard X Y \<le> 1 \<and> jaccard X Y = jaccard Y X
   \<and> 0 \<le> jaccard_similarity X Y \<and> jaccard_similarity X Y \<le> 1
   \<and> jaccard_similarity X Y = jaccard_similarity Y X"
  using jaccard_bounds [of X Y] jaccard_similarity_bounds [of X Y]
    jaccard_commute [of X Y] jaccard_similarity_commute [of X Y]
  by simp

theorem jaccard_bounds_and_symmetry_witness:
  "jaccard {|''f1'', ''f2''|} {|''f2'', ''f3''|} = 1 / 3
   \<and> jaccard {|''f2'', ''f3''|} {|''f1'', ''f2''|} = 1 / 3
   \<and> jaccard_similarity {|''f1'', ''f2''|} {|''f2'', ''f3''|} = 1 / 3
   \<and> jaccard_similarity {|''f2'', ''f3''|} {|''f1'', ''f2''|} = 1 / 3"
proof -
  have a: "jaccard {|''f1'', ''f2''|} {|''f2'', ''f3''|} = 1 / 3"
    by (simp add: jaccard_def Let_def fcard_finsert_if)
  have b: "jaccard_similarity {|''f1'', ''f2''|} {|''f2'', ''f3''|} = 1 / 3"
    by (simp add: jaccard_similarity_def Let_def fcard_finsert_if)
  show ?thesis
    using a b jaccard_bounds_and_symmetry [of "{|''f1'', ''f2''|}" "{|''f2'', ''f3''|}"]
    by simp
qed

text \<open>
  Claim C3. \<^verbatim>\<open>jaccard\<close> and \<^verbatim>\<open>jaccard_similarity\<close> return equal values on every pair of
  fingerprint sets of which at least one is not empty; on two empty sets the first
  returns 1.0 and the second returns 0.0.
\<close>

theorem jaccard_variants_agree_unless_both_empty:
  "(a \<noteq> {||} \<or> b \<noteq> {||} \<longrightarrow> jaccard a b = jaccard_similarity a b)
   \<and> jaccard ({||} :: 'h fset) {||} = 1
   \<and> jaccard_similarity ({||} :: 'h fset) {||} = 0"
  by (auto simp add: jaccard_def jaccard_similarity_def Let_def fcard_0_eq)

theorem jaccard_variants_agree_witness:
  "jaccard {|''f1'', ''f2''|} {|''f2''|} = jaccard_similarity {|''f1'', ''f2''|} {|''f2''|}
   \<and> jaccard_similarity {|''f1'', ''f2''|} {|''f2''|} = 1 / 2
   \<and> jaccard ({||} :: string fset) {||} = 1
   \<and> jaccard_similarity ({||} :: string fset) {||} = 0"
proof -
  have v: "jaccard_similarity {|''f1'', ''f2''|} {|''f2''|} = 1 / 2"
    by (simp add: jaccard_similarity_def Let_def fcard_finsert_if)
  show ?thesis
    using v jaccard_variants_agree_unless_both_empty [of "{|''f1'', ''f2''|}" "{|''f2''|}"]
    by simp
qed

subsection \<open>Repository-level aggregation\<close>

lemma foldl_max_conv_Max:
  "foldl (\<lambda>best g. max best (f g)) (b::real) gs = Max (insert b (f ` set gs))"
proof (induction gs arbitrary: b)
  case Nil
  show ?case by simp
next
  case (Cons g gs)
  have "Max (insert (max b (f g)) (f ` set gs)) = Max (insert b (insert (f g) (f ` set gs)))"
  proof (cases "gs = []")
    case True
    then show ?thesis by (simp add: max.commute)
  next
    case False
    then have ne: "f ` set gs \<noteq> {}" by simp
    show ?thesis using ne by (simp add: max.assoc)
  qed
  with Cons.IH [of "max b (f g)"] show ?case by simp
qed

lemma best_match_conv_Max:
  assumes "gs \<noteq> []" and "\<And>g. 0 \<le> f g"
  shows "foldl (\<lambda>best g. max best (f g)) (0::real) gs = Max (f ` set gs)"
proof -
  have ne: "f ` set gs \<noteq> {}" using assms(1) by simp
  obtain g where g: "g \<in> set gs" using assms(1) by (cases gs) auto
  have "f g \<le> Max (f ` set gs)" using g by simp
  with assms(2) [of g] have nonneg: "0 \<le> Max (f ` set gs)" by linarith
  have "foldl (\<lambda>best g. max best (f g)) 0 gs = Max (insert 0 (f ` set gs))"
    by (rule foldl_max_conv_Max)
  also have "\<dots> = max 0 (Max (f ` set gs))"
    using ne by simp
  also have "\<dots> = Max (f ` set gs)"
    using nonneg by (rule max_absorb2)
  finally show ?thesis .
qed

lemma weighted_foldl_conv_sum:
  "foldl (\<lambda>sumw (rel, info). sumw + h info) (a::real) A = a + sum_list (map h (map snd A))"
  by (induction A arbitrary: a) (auto simp: algebra_simps)

lemma weighted_pair_foldl_conv_sum:
  "foldl (\<lambda>(ws, tw) (path, info). (ws + h info, tw + w info)) (a::real, t::int) A
     = (a + sum_list (map h (map snd A)), t + sum_list (map w (map snd A)))"
  by (induction A arbitrary: a t) (auto simp: algebra_simps)

lemma total_weight_pos:
  "A \<noteq> [] \<Longrightarrow> 0 < sum_list (map (\<lambda>info. max 1 (norm_len info)) (map snd A))"
proof (induction A)
  case Nil
  then show ?case by simp
next
  case (Cons x A)
  have "0 \<le> sum_list (map (\<lambda>info. max 1 (norm_len info)) (map snd A))"
    by (rule sum_list_nonneg) auto
  then show ?case by simp
qed

lemma sum_list_real_of_int:
  "real_of_int (sum_list (map w xs)) = sum_list (map (\<lambda>x. real_of_int (w x)) xs)"
  by (induction xs) auto


lemma if_greater_foldl_conv_max:
  "foldl (\<lambda>best (path, g). let sim = f g in if sim > best then sim else best) (b::real) B
     = foldl (\<lambda>best g. max best (f g)) b (map snd B)"
  by (induction B arbitrary: b) (auto simp: max_def Let_def)

lemma directional_loop:
  assumes "B \<noteq> []" and "\<And>a b. 0 \<le> J a b"
  shows "foldl (\<lambda>sumw (relA, infoA).
            sumw + foldl (\<lambda>best infoB. max best (J (fingerprints infoA) (fingerprints infoB)))
                     0 (map snd B) * real_of_int (max 1 (norm_len infoA))) 0 A
         = (\<Sum>f \<leftarrow> map snd A. real_of_int (max 1 (norm_len f))
                * Max ((\<lambda>g. J (fingerprints f) (fingerprints g)) ` set (map snd B)))"
proof -
  have ne: "map snd B \<noteq> []" using assms(1) by simp
  have inner: "foldl (\<lambda>best infoB. max best (J (fingerprints f) (fingerprints infoB))) 0 (map snd B)
                 = Max ((\<lambda>g. J (fingerprints f) (fingerprints g)) ` set (map snd B))" for f
    by (rule best_match_conv_Max [OF ne]) (rule assms(2))
  show ?thesis
    unfolding inner by (simp add: weighted_foldl_conv_sum mult.commute)
qed

lemma directional_score:
  assumes "A \<noteq> []" and "B \<noteq> []" and "\<And>a b. 0 \<le> J a b"
  shows "(let totw = sum_list (map (\<lambda>info. max 1 (norm_len info)) (map snd A));
              sumw = foldl (\<lambda>sumw (relA, infoA).
                       let best = foldl (\<lambda>best infoB.
                                     max best (J (fingerprints infoA) (fingerprints infoB)))
                                   0 (map snd B);
                           w = max 1 (norm_len infoA)
                       in sumw + best * real_of_int w) 0 A
          in if totw \<noteq> 0 then sumw / real_of_int totw else 0)
         = directional_aggregate_spec J A B"
proof -
  have pos: "sum_list (map (\<lambda>info. max 1 (norm_len info)) (map snd A)) \<noteq> 0"
    using total_weight_pos [OF assms(1)] by simp
  have loop: "foldl (\<lambda>sumw (relA, infoA).
            sumw + foldl (\<lambda>best infoB. max best (J (fingerprints infoA) (fingerprints infoB)))
                     0 (map snd B) * real_of_int (max 1 (norm_len infoA))) 0 A
         = (\<Sum>f \<leftarrow> map snd A. real_of_int (max 1 (norm_len f))
                * Max ((\<lambda>g. J (fingerprints f) (fingerprints g)) ` set (map snd B)))"
    by (rule directional_loop) (fact assms(2), rule assms(3))
  show ?thesis
    using pos
    by (simp only: Let_def loop directional_aggregate_spec_def sum_list_real_of_int) simp
qed


text \<open>
  Claim C4. For non-empty collections \<open>A\<close> and \<open>B\<close> the aggregate score is the arithmetic
  mean of the two directional aggregates, where the aggregate from \<open>A\<close> to \<open>B\<close> is the sum
  over the files \<open>f\<close> of \<open>A\<close> of \<open>max(1, normCount f)\<close> times the best Jaccard score of \<open>f\<close>
  against any file of \<open>B\<close>, divided by the sum of the weights \<open>max(1, normCount f)\<close>. This
  holds for \<^verbatim>\<open>aggregate\<close> with \<^verbatim>\<open>jaccard\<close> and for \<^verbatim>\<open>aggregate_repo_similarity\<close> with
  \<^verbatim>\<open>jaccard_similarity\<close>.
\<close>

theorem aggregate_is_mean_of_directional_aggregates:
  assumes "A \<noteq> []" and "B \<noteq> []"
  shows "aggregate A B
           = (directional_aggregate_spec jaccard A B + directional_aggregate_spec jaccard B A) / 2
         \<and> aggregate_repo_similarity A B
           = (directional_aggregate_spec jaccard_similarity A B
              + directional_aggregate_spec jaccard_similarity B A) / 2"
proof
  have J: "0 \<le> jaccard a b" for a b :: "'a fset"
    using jaccard_bounds [of a b] by simp
  show "aggregate A B
          = (directional_aggregate_spec jaccard A B + directional_aggregate_spec jaccard B A) / 2"
    unfolding aggregate_def
    using directional_score [OF assms(1) assms(2), of jaccard, OF J]
      directional_score [OF assms(2) assms(1), of jaccard, OF J]
    by (simp add: Let_def)
next
  have J: "0 \<le> jaccard_similarity a b" for a b :: "'a fset"
    using jaccard_similarity_bounds [of a b] by simp
  have pair: "foldl (\<lambda>(weighted_sum, total_weight) (path, info).
                        let best_score =
                              foldl (\<lambda>best_score (other_path, other_info).
                                       let sim = jaccard_similarity (fingerprints info)
                                                   (fingerprints other_info)
                                       in if sim > best_score then sim else best_score)
                                0 Y;
                            weight = max 1 (norm_len info)
                        in (weighted_sum + best_score * real_of_int weight, total_weight + weight))
                 (0, 0) X
              = (foldl (\<lambda>sumw (relA, infoA).
                     let best = foldl (\<lambda>best infoB.
                                   max best (jaccard_similarity (fingerprints infoA) (fingerprints infoB)))
                                 0 (map snd Y);
                         w = max 1 (norm_len infoA)
                     in sumw + best * real_of_int w) 0 X,
                 sum_list (map (\<lambda>info. max 1 (norm_len info)) (map snd X)))"
    for X Y :: "'a repo"
    by (simp add: Let_def if_greater_foldl_conv_max [unfolded Let_def]
        weighted_pair_foldl_conv_sum weighted_foldl_conv_sum)
  have gt: "(0 < t) = (t \<noteq> 0)" if "0 \<le> t" for t :: int
    using that by auto
  have nn: "0 \<le> sum_list (map (\<lambda>info. max 1 (norm_len info)) (map snd X))" for X :: "'a repo"
    by (rule sum_list_nonneg) auto
  have posA: "0 < sum_list (map (\<lambda>info. max 1 (norm_len info)) (map snd A))"
    by (rule total_weight_pos [OF assms(1)])
  have posB: "0 < sum_list (map (\<lambda>info. max 1 (norm_len info)) (map snd B))"
    by (rule total_weight_pos [OF assms(2)])
  have dA: "foldl (\<lambda>sumw (relA, infoA).
                     let best = foldl (\<lambda>best infoB.
                                   max best (jaccard_similarity (fingerprints infoA) (fingerprints infoB)))
                                 0 (map snd B);
                         w = max 1 (norm_len infoA)
                     in sumw + best * real_of_int w) 0 A
             / real_of_int (sum_list (map (\<lambda>info. max 1 (norm_len info)) (map snd A)))
            = directional_aggregate_spec jaccard_similarity A B"
    using directional_score [OF assms(1) assms(2), of jaccard_similarity, OF J] posA
    by (simp only: Let_def) simp
  have dB: "foldl (\<lambda>sumw (relA, infoA).
                     let best = foldl (\<lambda>best infoB.
                                   max best (jaccard_similarity (fingerprints infoA) (fingerprints infoB)))
                                 0 (map snd A);
                         w = max 1 (norm_len infoA)
                     in sumw + best * real_of_int w) 0 B
             / real_of_int (sum_list (map (\<lambda>info. max 1 (norm_len info)) (map snd B)))
            = directional_aggregate_spec jaccard_similarity B A"
    using directional_score [OF assms(2) assms(1), of jaccard_similarity, OF J] posB
    by (simp only: Let_def) simp
  show "aggregate_repo_similarity A B
          = (directional_aggregate_spec jaccard_similarity A B
             + directional_aggregate_spec jaccard_similarity B A) / 2"
    unfolding aggregate_repo_similarity_def pair
    apply (simp only: Let_def case_prod_conv assms posA posB simp_thms if_True if_False)
    apply (simp only: dA [unfolded Let_def] dB [unfolded Let_def])
    done
qed


theorem aggregate_is_mean_witness:
  "aggregate
     [(''a1.java'', \<lparr>fingerprints = {|''h1'', ''h2''|}, norm_len = 6\<rparr>),
      (''a2.java'', \<lparr>fingerprints = {|''h3''|}, norm_len = 2\<rparr>)]
     [(''b1.java'', \<lparr>fingerprints = {|''h2''|}, norm_len = 0\<rparr>)] = 7 / 16
   \<and> aggregate_repo_similarity
     [(''a1.java'', \<lparr>fingerprints = {|''h1'', ''h2''|}, norm_len = 6\<rparr>),
      (''a2.java'', \<lparr>fingerprints = {|''h3''|}, norm_len = 2\<rparr>)]
     [(''b1.java'', \<lparr>fingerprints = {|''h2''|}, norm_len = 0\<rparr>)] = 7 / 16"
proof -
  define A :: "string repo" where
    "A = [(''a1.java'', \<lparr>fingerprints = {|''h1'', ''h2''|}, norm_len = 6\<rparr>),
          (''a2.java'', \<lparr>fingerprints = {|''h3''|}, norm_len = 2\<rparr>)]"
  define B :: "string repo" where
    "B = [(''b1.java'', \<lparr>fingerprints = {|''h2''|}, norm_len = 0\<rparr>)]"
  have ne: "A \<noteq> []" "B \<noteq> []"
    by (simp_all add: A_def B_def)
  have ab: "directional_aggregate_spec jaccard A B = 3 / 8"
    by (simp add: directional_aggregate_spec_def A_def B_def jaccard_def Let_def fcard_finsert_if fcard_fempty)
  have ba: "directional_aggregate_spec jaccard B A = 1 / 2"
    by (simp add: directional_aggregate_spec_def A_def B_def jaccard_def Let_def fcard_finsert_if fcard_fempty)
  have ab': "directional_aggregate_spec jaccard_similarity A B = 3 / 8"
    by (simp add: directional_aggregate_spec_def A_def B_def jaccard_similarity_def Let_def
        fcard_finsert_if fcard_fempty)
  have ba': "directional_aggregate_spec jaccard_similarity B A = 1 / 2"
    by (simp add: directional_aggregate_spec_def A_def B_def jaccard_similarity_def Let_def
        fcard_finsert_if fcard_fempty)
  have "aggregate A B = 7 / 16 \<and> aggregate_repo_similarity A B = 7 / 16"
    using aggregate_is_mean_of_directional_aggregates [OF ne] by (simp add: ab ba ab' ba')
  then show ?thesis by (simp only: A_def B_def)
qed

text \<open>
  With an empty collection on either side, \<^verbatim>\<open>aggregate\<close> of \<^verbatim>\<open>tools/normalization.py\<close> and
  \<^verbatim>\<open>aggregate_repo_similarity\<close> return 0 and the pairwise loop produces no result.
\<close>

lemma foldl_keep:
  "foldl (\<lambda>sumw (rel, info). sumw) (a::real) A = a"
  by (induction A) auto

lemma aggregate_empty:
  assumes "A = [] \<or> B = []"
  shows "aggregate A B = 0 \<and> aggregate_repo_similarity A B = 0 \<and> pairs A B = []"
proof -
  have "aggregate A B = 0"
    using assms by (auto simp add: aggregate_def Let_def foldl_keep)
  moreover have "aggregate_repo_similarity A B = 0"
    using assms by (simp add: aggregate_repo_similarity_def)
  moreover have "pairs A B = []"
    using assms by (auto simp add: pairs_def)
  ultimately show ?thesis by simp
qed

text \<open>
  Claim C7. If either collection is empty the run completes, with no pairwise result and
  the aggregate 0.0. \<^verbatim>\<open>aggregate\<close> of \<^verbatim>\<open>tools_backup/normalization.py\<close> does not: with an
  empty \<open>A\<close> it divides by the zero total weight, and with an empty \<open>B\<close> and a file in
  \<open>A\<close> it takes \<^verbatim>\<open>max\<close> of nothing.
\<close>

theorem aggregate_backup_raises_on_empty:
  "aggregate_backup [] [(''B.java'', \<lparr>fingerprints = {|''h1''|}, norm_len = 3\<rparr>)]
     = Inl ZeroDivisionError
   \<and> aggregate_backup [(''A.java'', \<lparr>fingerprints = {|''h1''|}, norm_len = 3\<rparr>)] []
     = Inl ValueError
   \<and> aggregate_backup ([] :: string repo) [] = Inl ZeroDivisionError"
  by (simp add: aggregate_backup_def true_div_def)

subsection \<open>Tokenizer\<close>

lemma ends_Star_unfold:
  "set (ends (Star r) s)
     = insert s (\<Union>s1 \<in> {s1 \<in> set (ends r s). length s1 < length s}. set (ends (Star r) s1))"
  by (subst ends.simps(8)) (auto split: if_splits)

lemma ends_LazyStar_unfold:
  "set (ends (LazyStar r) s)
     = insert s (\<Union>s1 \<in> {s1 \<in> set (ends r s). length s1 < length s}. set (ends (LazyStar r) s1))"
  by (subst ends.simps(9)) (auto split: if_splits)


lemma ends_suffix: "s' \<in> set (ends r s) \<Longrightarrow> suffix s' s"
proof (induction r s arbitrary: s' rule: ends.induct)
  case (1 s)
  then show ?case by simp
next
  case (2 c s)
  then show ?case by (cases s) (auto split: if_splits simp: suffix_Cons)
next
  case (3 s)
  then show ?case by (cases s) (auto split: if_splits simp: suffix_Cons)
next
  case (4 items s)
  then show ?case by (cases s) (auto split: if_splits simp: suffix_Cons)
next
  case (5 items s)
  then show ?case by (cases s) (auto split: if_splits simp: suffix_Cons)
next
  case (6 r1 r2 s)
  from "6.prems" obtain s1 where s1: "s1 \<in> set (ends r1 s)" and s': "s' \<in> set (ends r2 s1)"
    by auto
  have "suffix s1 s" using "6.IH"(1) s1 by blast
  moreover have "suffix s' s1" using "6.IH"(2) s1 s' by blast
  ultimately show ?case using suffix_order.trans by blast
next
  case (7 r1 r2 s)
  then show ?case by auto
next
  case (8 r s)
  from "8.prems" consider "s' = s"
    | s1 where "s1 \<in> set (ends r s)" "length s1 < length s" "s' \<in> set (ends (Star r) s1)"
    unfolding ends_Star_unfold [of r s] by blast
  then show ?case
  proof cases
    case 1
    then show ?thesis by simp
  next
    case 2
    have "suffix s1 s" using "8.IH"(1) 2(1) by blast
    moreover have "suffix s' s1" using "8.IH"(2) 2 by blast
    ultimately show ?thesis using suffix_order.trans by blast
  qed
next
  case (9 r s)
  from "9.prems" consider "s' = s"
    | s1 where "s1 \<in> set (ends r s)" "length s1 < length s" "s' \<in> set (ends (LazyStar r) s1)"
    unfolding ends_LazyStar_unfold [of r s] by blast
  then show ?case
  proof cases
    case 1
    then show ?thesis by simp
  next
    case 2
    have "suffix s1 s" using "9.IH"(1) 2(1) by blast
    moreover have "suffix s' s1" using "9.IH"(2) 2 by blast
    ultimately show ?thesis using suffix_order.trans by blast
  qed
next
  case (10 s)
  then show ?case by (cases s) (auto split: if_splits)
next
  case (11 c s)
  then show ?case by (cases s) (auto split: if_splits)
next
  case (12 r s)
  then show ?case by simp
qed































lemma ends_length: "r \<in> set (ends p s) \<Longrightarrow> length r \<le> length s"
  using ends_suffix [of r p s] by (auto simp add: suffix_def)

text \<open>
  No alternative of the token patterns can match the empty string, so \<open>findall\<close> always
  emits a token of at least one character and goes on behind it.
\<close>

lemma consuming_shortens:
  "consuming r \<Longrightarrow> r' \<in> set (ends r s) \<Longrightarrow> length r' < length s"
proof (induction r arbitrary: r' s)
  case (Seq r1 r2)
  from Seq.prems(2) obtain s1 where s1: "s1 \<in> set (ends r1 s)" and r': "r' \<in> set (ends r2 s1)"
    by auto
  have a: "length s1 \<le> length s" using s1 by (rule ends_length)
  have b: "length r' \<le> length s1" using r' by (rule ends_length)
  from Seq.prems(1) consider "consuming r1" | "consuming r2" by auto
  then show ?case
  proof cases
    case 1
    then have "length s1 < length s" using Seq.IH(1) s1 by blast
    with b show ?thesis by linarith
  next
    case 2
    then have "length r' < length s1" using Seq.IH(2) r' by blast
    with a show ?thesis by linarith
  qed
next
  case (Alt r1 r2)
  then show ?case by auto
qed (auto split: list.splits if_splits)

lemma token_patterns_consume: "consuming token_pattern" "consuming token_pattern_backup"
  by code_simp+

lemma token_pattern_never_empty:
  "r' \<in> set (ends token_pattern s) \<Longrightarrow> length r' < length s"
  "r' \<in> set (ends token_pattern_backup s) \<Longrightarrow> length r' < length s"
  using consuming_shortens token_patterns_consume by blast+




















subsection \<open>Normalization: one canonical token per token\<close>

lemma normalize_step_appends:
  "\<exists>c. norm_out (normalize_step kw st tok) = norm_out st @ [c]"
  by (simp add: normalize_step_def split: option.splits)

lemma normalize_loop_appends:
  "\<exists>cs. norm_out (foldl (normalize_step kw) st toks) = norm_out st @ cs
        \<and> length cs = length toks"
proof (induction toks arbitrary: st)
  case Nil
  show ?case by simp
next
  case (Cons tok toks)
  obtain c where c: "norm_out (normalize_step kw st tok) = norm_out st @ [c]"
    using normalize_step_appends by blast
  obtain cs where cs: "norm_out (foldl (normalize_step kw) (normalize_step kw st tok) toks)
                         = norm_out (normalize_step kw st tok) @ cs" "length cs = length toks"
    using Cons.IH by blast
  show ?case
    using c cs by simp
qed

lemma length_normalize: "length (fst (normalize kw toks)) = length toks"
  using normalize_loop_appends [of kw "\<lparr>id_map = Map.empty, next_id = 1, norm_out = []\<rparr>" toks]
  by (auto simp add: normalize_def Let_def)

text \<open>
  Claim C9. \<^verbatim>\<open>normalize\<close> returns a canonical sequence of exactly the length of its input,
  so the raw token count and the normalized token count that \<^verbatim>\<open>main\<close> reports for a file
  are equal.
\<close>

theorem normalize_preserves_length:
  "length (fst (normalize keywords tokens)) = length tokens
   \<and> raw_len (fst (process_file sha1 txt)) = entry_norm_len (fst (process_file sha1 txt))"
  by (simp add: length_normalize process_file_def Let_def split_def)

lemma tokenize_example:
  "tokenize (''x = '' @ [dquote] @ ''abc'') = [''x'', ''='', [dquote], ''abc'']"
  by code_simp

theorem normalize_preserves_length_witness:
  "length (fst (normalize KEYWORDS [''x'', ''='', [dquote], ''abc''])) = 4
   \<and> raw_len (fst (process_file (\<lambda>s. s) (''x = '' @ [dquote] @ ''abc''))) = 4
   \<and> entry_norm_len (fst (process_file (\<lambda>s. s) (''x = '' @ [dquote] @ ''abc''))) = 4"
proof -
  have r: "raw_len (fst (process_file (\<lambda>s. s) (''x = '' @ [dquote] @ ''abc''))) = 4"
    unfolding process_file_def Let_def split_def tokenize_example by simp
  show ?thesis
    using r normalize_preserves_length [of KEYWORDS "[''x'', ''='', [dquote], ''abc'']"
        "\<lambda>s. s" "''x = '' @ [dquote] @ ''abc''"]
    by simp
qed

lemma normalize_nth:
  "fst (normalize kw (pre @ [tok] @ post)) ! length pre
     = last (norm_out (normalize_step kw
         (foldl (normalize_step kw) \<lparr>id_map = Map.empty, next_id = 1, norm_out = []\<rparr> pre) tok))"
proof -
  let ?s0 = "\<lparr>id_map = Map.empty, next_id = 1, norm_out = []\<rparr>"
  let ?s1 = "foldl (normalize_step kw) ?s0 pre"
  let ?s2 = "normalize_step kw ?s1 tok"
  obtain cs where cs: "norm_out ?s1 = norm_out ?s0 @ cs" "length cs = length pre"
    using normalize_loop_appends by blast
  obtain c where c: "norm_out ?s2 = norm_out ?s1 @ [c]"
    using normalize_step_appends by blast
  obtain ds where ds: "norm_out (foldl (normalize_step kw) ?s2 post) = norm_out ?s2 @ ds"
    using normalize_loop_appends by blast
  have "fst (normalize kw (pre @ [tok] @ post)) = cs @ [c] @ ds"
    using cs c ds by (simp add: normalize_def Let_def)
  then show ?thesis
    using cs(2) c by (simp add: nth_append)
qed

lemma lone_quote_is_string_token: "is_string_token [dquote] \<and> is_string_token [squote]"
  by (simp add: is_string_token_def startswith_def endswith_def)

text \<open>
  Claim C10. A token that is a single double quote or a single single quote, wherever it
  stands in the token list, is classified as a string literal: the canonical token at its
  position is \<^verbatim>\<open>STR\<close>.
\<close>

theorem lone_quote_normalizes_to_STR:
  "fst (normalize keywords (pre @ [[dquote]] @ post)) ! length pre = ''STR''
   \<and> fst (normalize keywords (pre @ [[squote]] @ post)) ! length pre = ''STR''"
  using lone_quote_is_string_token
  by (simp only: normalize_nth) (simp add: normalize_step_def)

lemma normalize_example:
  "fst (normalize KEYWORDS [''x'', ''='', [dquote], ''abc'']) = [''ID1'', ''='', ''STR'', ''ID2'']"
  by code_simp

theorem lone_quote_normalizes_to_STR_witness:
  "tokenize (''x = '' @ [dquote] @ ''abc'') = [''x'', ''='', [dquote], ''abc'']
   \<and> fst (normalize KEYWORDS [''x'', ''='', [dquote], ''abc'']) ! 2 = ''STR''
   \<and> fst (normalize KEYWORDS [''x'', ''='', [dquote], ''abc'']) = [''ID1'', ''='', ''STR'', ''ID2'']"
  using lone_quote_normalizes_to_STR [of KEYWORDS "[''x'', ''='']" "[''abc'']"]
    tokenize_example normalize_example
  by simp

subsection \<open>Normalization: renaming identifiers\<close>

lemma ends_In_Cons: "ends (Seq (In cls) r) (c # cs) = (if in_cls c cls then ends r cs else [])"
  by simp

lemma ends_In_Nil: "ends (Seq (In cls) r) [] = []"
  by simp

lemma identifier_starts_with_letter:
  assumes "fullmatch identifier_re tok"
  shows "\<exists>c cs. tok = c # cs
           \<and> in_cls c [Rng CHR ''A'' CHR ''Z'', Rng CHR ''a'' CHR ''z'', Ch CHR ''_'']"
proof (cases tok)
  case Nil
  with assms show ?thesis
    by (simp only: fullmatch_def identifier_re_def ends_In_Nil) simp
next
  case (Cons c cs)
  have "in_cls c [Rng CHR ''A'' CHR ''Z'', Rng CHR ''a'' CHR ''z'', Ch CHR ''_'']"
  proof (rule ccontr)
    assume n: "\<not> in_cls c [Rng CHR ''A'' CHR ''Z'', Rng CHR ''a'' CHR ''z'', Ch CHR ''_'']"
    from assms Cons show False
      by (simp only: fullmatch_def identifier_re_def ends_In_Cons n if_False) simp
  qed
  with Cons show ?thesis by simp
qed


lemma number_starts_with_digit:
  assumes "fullmatch number_re tok"
  shows "\<exists>c cs. tok = c # cs \<and> in_cls c [Digit]"
proof (cases tok)
  case Nil
  with assms show ?thesis
    by (simp only: fullmatch_def number_re_def decimal_re_def integer_re_def Plus_def
        Seqs.simps ends.simps(6,7) ends_In_Nil) simp
next
  case (Cons c cs)
  have "in_cls c [Digit]"
  proof (rule ccontr)
    assume n: "\<not> in_cls c [Digit]"
    have a: "ends (In [Digit]) (c # cs) = []" using n by simp
    from assms Cons show False
      by (simp only: fullmatch_def number_re_def decimal_re_def integer_re_def Plus_def
          Seqs.simps ends.simps(6,7) a) simp
  qed
  with Cons show ?thesis by simp
qed

lemma string_token_starts_with_quote:
  assumes "is_string_token tok"
  shows "\<exists>c cs. tok = c # cs \<and> (c = dquote \<or> c = squote \<or> c = backtick)"
  using assms
  by (cases tok) (auto simp add: is_string_token_def startswith_def endswith_def)

lemma letter_not_digit_not_quote:
  assumes "in_cls c [Rng CHR ''A'' CHR ''Z'', Rng CHR ''a'' CHR ''z'', Ch CHR ''_'']"
  shows "\<not> in_cls c [Digit] \<and> c \<noteq> dquote \<and> c \<noteq> squote \<and> c \<noteq> backtick"
  using assms
  by (auto simp add: in_cls_def dquote_def squote_def backtick_def)

lemma identifier_not_string_not_number:
  assumes "fullmatch identifier_re tok"
  shows "\<not> is_string_token tok \<and> \<not> fullmatch number_re tok"
proof -
  obtain c cs where tok: "tok = c # cs"
    and c: "in_cls c [Rng CHR ''A'' CHR ''Z'', Rng CHR ''a'' CHR ''z'', Ch CHR ''_'']"
    using identifier_starts_with_letter [OF assms] by blast
  have n: "\<not> in_cls c [Digit]" and q: "c \<noteq> dquote" "c \<noteq> squote" "c \<noteq> backtick"
    using letter_not_digit_not_quote [OF c] by simp_all
  have "\<not> is_string_token tok"
    using string_token_starts_with_quote [of tok] tok q by auto
  moreover have "\<not> fullmatch number_re tok"
    using number_starts_with_digit [of tok] tok n by auto
  ultimately show ?thesis by simp
qed

text \<open>What the loop body does with an identifier, and with any other token.\<close>

lemma normalize_step_identifier:
  assumes "is_identifier_token kw tok"
  shows "normalize_step kw st tok =
     (case id_map st tok of
        None \<Rightarrow>
          st\<lparr>id_map := (id_map st)(tok \<mapsto> ''ID'' @ str_nat (next_id st)),
             next_id := next_id st + 1,
             norm_out := norm_out st @ [''ID'' @ str_nat (next_id st)]\<rparr>
      | Some v \<Rightarrow> st\<lparr>norm_out := norm_out st @ [v]\<rparr>)"
  using assms identifier_not_string_not_number [of tok]
  by (simp add: normalize_step_def is_identifier_token_def)

lemma normalize_step_other:
  assumes "\<not> is_identifier_token kw tok"
  shows "\<exists>c. \<forall>st. normalize_step kw st tok = st\<lparr>norm_out := norm_out st @ [c]\<rparr>"
  using assms
  by (auto simp add: normalize_step_def is_identifier_token_def)

lemma renamed_states_step:
  assumes inj: "inj_on \<rho> {tok \<in> T. is_identifier_token kw tok}"
    and ids: "\<And>t. t \<in> T \<Longrightarrow> is_identifier_token kw t \<Longrightarrow> is_identifier_token kw (\<rho> t)"
    and tok: "tok \<in> T"
    and R: "renamed_states \<rho> kw T st st'"
  shows "renamed_states \<rho> kw T (normalize_step kw st tok)
           (normalize_step kw st' (if is_identifier_token kw tok then \<rho> tok else tok))"
proof (cases "is_identifier_token kw tok")
  case False
  obtain c where c: "\<And>s. normalize_step kw s tok = s\<lparr>norm_out := norm_out s @ [c]\<rparr>"
    using normalize_step_other [OF False] by blast
  show ?thesis
    using R False by (simp add: c renamed_states_def)
next
  case True
  have same: "id_map st' (\<rho> tok) = id_map st tok"
    using R tok True by (simp add: renamed_states_def)
  have other: "\<rho> t \<noteq> \<rho> tok" if "t \<in> T" "is_identifier_token kw t" "t \<noteq> tok" for t
    using inj that tok True by (auto simp add: inj_on_def)
  show ?thesis
  proof (cases "id_map st tok")
    case None
    show ?thesis
      using R True None same other
      by (auto simp add: normalize_step_identifier ids [OF tok True] renamed_states_def)
  next
    case (Some v)
    show ?thesis
      using R True Some same
      by (simp add: normalize_step_identifier ids [OF tok True] renamed_states_def)
  qed
qed

lemma renamed_states_loop:
  assumes inj: "inj_on \<rho> {tok \<in> T. is_identifier_token kw tok}"
    and ids: "\<And>t. t \<in> T \<Longrightarrow> is_identifier_token kw t \<Longrightarrow> is_identifier_token kw (\<rho> t)"
  shows "set toks \<subseteq> T \<Longrightarrow> renamed_states \<rho> kw T st st' \<Longrightarrow>
         renamed_states \<rho> kw T (foldl (normalize_step kw) st toks)
           (foldl (normalize_step kw) st' (rename \<rho> kw toks))"
proof (induction toks arbitrary: st st')
  case Nil
  then show ?case by (simp add: rename_def)
next
  case (Cons tok toks)
  have tok: "tok \<in> T" using Cons.prems(1) by simp
  have step: "renamed_states \<rho> kw T (normalize_step kw st tok)
           (normalize_step kw st' (if is_identifier_token kw tok then \<rho> tok else tok))"
    by (rule renamed_states_step [OF inj ids tok Cons.prems(2)])
  have "renamed_states \<rho> kw T (foldl (normalize_step kw) (normalize_step kw st tok) toks)
           (foldl (normalize_step kw)
              (normalize_step kw st' (if is_identifier_token kw tok then \<rho> tok else tok))
              (rename \<rho> kw toks))"
    using Cons.IH [OF _ step] Cons.prems(1) by simp
  then show ?case by (simp add: rename_def)
qed

text \<open>
  Claim C2. Let \<open>\<rho>\<close> rename the identifier tokens of a token sequence: it is injective on
  them and maps each to a token that again matches the identifier grammar and is no
  keyword (so it is no number and no string literal either); every other token stays
  as it is. Then \<^verbatim>\<open>normalize\<close> produces the same canonical sequence for the sequence and
  for the renamed sequence.
\<close>

theorem rename_invariance:
  assumes "inj_on \<rho> {tok \<in> set tokens. is_identifier_token keywords tok}"
    and "\<forall>tok \<in> set tokens. is_identifier_token keywords tok
           \<longrightarrow> is_identifier_token keywords (\<rho> tok)"
  shows "fst (normalize keywords (rename \<rho> keywords tokens)) = fst (normalize keywords tokens)"
proof -
  let ?s0 = "\<lparr>id_map = Map.empty, next_id = 1, norm_out = []\<rparr>"
  have R0: "renamed_states \<rho> keywords (set tokens) ?s0 ?s0"
    by (simp add: renamed_states_def)
  have "renamed_states \<rho> keywords (set tokens) (foldl (normalize_step keywords) ?s0 tokens)
           (foldl (normalize_step keywords) ?s0 (rename \<rho> keywords tokens))"
    by (rule renamed_states_loop [OF assms(1) _ _ R0]) (use assms(2) in auto)
  then show ?thesis
    by (simp add: normalize_def Let_def renamed_states_def)
qed



theorem rename_invariance_witness:
  "fst (normalize KEYWORDS [''int'', ''n'', ''='', ''n'', ''+'', ''sum'', '';''])
     = fst (normalize KEYWORDS [''int'', ''count'', ''='', ''count'', ''+'', ''total'', '';''])
   \<and> fst (normalize KEYWORDS [''int'', ''count'', ''='', ''count'', ''+'', ''total'', '';''])
     = [''int'', ''ID1'', ''='', ''ID1'', ''+'', ''ID2'', '';'']"
proof -
  define \<rho> :: "string \<Rightarrow> string" where
    "\<rho> = (\<lambda>t. if t = ''count'' then ''n'' else if t = ''total'' then ''sum'' else t)"
  define toks where "toks = [''int'', ''count'', ''='', ''count'', ''+'', ''total'', '';'']"
  have yes: "is_identifier_token KEYWORDS ''count''" "is_identifier_token KEYWORDS ''total''"
    "is_identifier_token KEYWORDS ''n''" "is_identifier_token KEYWORDS ''sum''"
    by code_simp+
  have no: "\<not> is_identifier_token KEYWORDS ''int''" "\<not> is_identifier_token KEYWORDS ''=''"
    "\<not> is_identifier_token KEYWORDS ''+''" "\<not> is_identifier_token KEYWORDS '';''"
    by code_simp+
  have ids: "{tok \<in> set toks. is_identifier_token KEYWORDS tok} = {''count'', ''total''}"
    using yes no by (auto simp add: toks_def)
  have inj: "inj_on \<rho> {tok \<in> set toks. is_identifier_token KEYWORDS tok}"
    unfolding ids by (simp add: \<rho>_def)
  have img: "\<forall>tok \<in> set toks. is_identifier_token KEYWORDS tok
               \<longrightarrow> is_identifier_token KEYWORDS (\<rho> tok)"
    using yes no by (simp add: toks_def \<rho>_def)
  have ren: "rename \<rho> KEYWORDS toks = [''int'', ''n'', ''='', ''n'', ''+'', ''sum'', '';'']"
    using yes no by (simp add: rename_def toks_def \<rho>_def)
  have val: "fst (normalize KEYWORDS toks) = [''int'', ''ID1'', ''='', ''ID1'', ''+'', ''ID2'', '';'']"
    unfolding toks_def by code_simp
  show ?thesis
    using rename_invariance [OF inj img] val unfolding ren by (simp add: toks_def)
qed

subsection \<open>Fingerprinting\<close>

lemma fold_finsert_conv:
  "fold (\<lambda>i S. finsert (g i) S) xs S0 = fset_of_list (map g xs) |\<union>| S0"
  by (induction xs arbitrary: S0) auto

lemma fcard_fset_of_list_le: "fcard (fset_of_list xs) \<le> length xs"
  by (induction xs) (auto simp: fcard_finsert_if)

lemma fcard_shingles_le:
  "fcard (fold (\<lambda>i S. finsert (g i) S) [0 ..< m] {||}) \<le> m"
  using fcard_fset_of_list_le [of "map g [0 ..< m]"]
  by (simp add: fold_finsert_conv)

text \<open>
  The count law on the level of the two functions, for a window size \<open>k \<ge> 1\<close> and a token
  sequence of length \<open>n\<close>: when \<open>n \<ge> k\<close> both return at most \<open>n - k + 1\<close> fingerprints; when
  \<open>0 < n < k\<close>, \<^verbatim>\<open>fingerprint_tokens\<close> returns exactly one fingerprint, the digest of the
  whole sequence, and \<^verbatim>\<open>fingerprints_from_norm\<close> returns the empty set; when \<open>n = 0\<close> both
  return the empty set.
\<close>

lemma shingle_count_law:
  assumes "1 \<le> k"
  shows "(k \<le> int (length toks) \<longrightarrow>
            (\<exists>S. fingerprint_tokens sha1 toks k = Inr S
                 \<and> int (fcard S) \<le> int (length toks) - k + 1)
            \<and> int (fcard (fingerprints_from_norm sha1 toks k)) \<le> int (length toks) - k + 1)
         \<and> (0 < length toks \<and> int (length toks) < k \<longrightarrow>
            fingerprint_tokens sha1 toks k = Inr {|sha1 (join unit_sep toks)|}
            \<and> fingerprints_from_norm sha1 toks k = {||})
         \<and> (length toks = 0 \<longrightarrow>
            fingerprint_tokens sha1 toks k = Inr {||}
            \<and> fingerprints_from_norm sha1 toks k = {||})"
proof (intro conjI impI)
  assume nk: "k \<le> int (length toks)"
  let ?m = "nat (int (length toks) - k + 1)"
  have m: "int ?m = int (length toks) - k + 1" using nk by simp
  have "fcard (fold (\<lambda>i S. finsert (sha1 (join unit_sep (py_slice toks (int i) (int i + k)))) S)
                 [0 ..< ?m] {||}) \<le> ?m"
    by (rule fcard_shingles_le)
  then have le: "int (fcard (fold (\<lambda>i S. finsert (sha1 (join unit_sep (py_slice toks (int i) (int i + k)))) S)
                 [0 ..< ?m] {||})) \<le> int (length toks) - k + 1"
    using m by linarith
  show "\<exists>S. fingerprint_tokens sha1 toks k = Inr S
            \<and> int (fcard S) \<le> int (length toks) - k + 1"
    using assms nk le by (simp add: fingerprint_tokens_def)
  have "max 0 (int (length toks) - k + 1) = int (length toks) - k + 1"
    using nk by simp
  then show "int (fcard (fingerprints_from_norm sha1 toks k)) \<le> int (length toks) - k + 1"
    using le by (simp add: fingerprints_from_norm_def Let_def)
next
  assume "0 < length toks \<and> int (length toks) < k"
  then show "fingerprint_tokens sha1 toks k = Inr {|sha1 (join unit_sep toks)|}"
    using assms by (simp add: fingerprint_tokens_def)
next
  assume "0 < length toks \<and> int (length toks) < k"
  then show "fingerprints_from_norm sha1 toks k = {||}"
    by (simp add: fingerprints_from_norm_def Let_def)
next
  assume "length toks = 0"
  then show "fingerprint_tokens sha1 toks k = Inr {||}"
    using assms by (simp add: fingerprint_tokens_def)
next
  assume "length toks = 0"
  then show "fingerprints_from_norm sha1 toks k = {||}"
    using assms by (simp add: fingerprints_from_norm_def Let_def)
qed

lemma short_file_tokens:
  "tokenize ''x = 1'' = [''x'', ''='', ''1'']"
  "tokenize ''return y;'' = [''return'', ''y'', '';'']"
  "fst (normalize KEYWORDS [''x'', ''='', ''1'']) = [''ID1'', ''='', ''NUM'']"
  "fst (normalize KEYWORDS [''return'', ''y'', '';'']) = [''return'', ''ID1'', '';'']"
  by code_simp+

lemma short_file_info:
  "snd (process_file sha1 ''x = 1'') = \<lparr>fingerprints = {||}, norm_len = 3\<rparr>"
  "snd (process_file sha1 ''return y;'') = \<lparr>fingerprints = {||}, norm_len = 3\<rparr>"
  unfolding process_file_def Let_def split_def short_file_tokens
  by (simp_all add: fingerprints_from_norm_def)

text \<open>
  Claim C1. A sequence of fewer than \<open>k\<close> tokens, but at least one, is to give exactly one
  fingerprint, computed over the whole sequence. In \<^verbatim>\<open>tools/normalization.py\<close> it gives
  none: \<^verbatim>\<open>main\<close> fingerprints with \<open>k = 5\<close>, and the two files \<^verbatim>\<open>x = 1\<close> and \<^verbatim>\<open>return y;\<close> of
  three tokens each get the empty fingerprint set, so that these unrelated files score
  the Jaccard similarity 1. \<^verbatim>\<open>fingerprint_tokens\<close> gives the first of them its one
  fingerprint.
\<close>

theorem short_file_gets_no_fingerprint:
  "\<forall>sha1 :: string \<Rightarrow> string.
     norm_len (snd (process_file sha1 ''x = 1'')) = 3
     \<and> fingerprints (snd (process_file sha1 ''x = 1'')) = {||}
     \<and> norm_len (snd (process_file sha1 ''return y;'')) = 3
     \<and> fingerprints (snd (process_file sha1 ''return y;'')) = {||}
     \<and> jaccard (fingerprints (snd (process_file sha1 ''x = 1'')))
          (fingerprints (snd (process_file sha1 ''return y;''))) = 1
     \<and> fingerprint_tokens sha1 (fst (normalize KEYWORDS (tokenize ''x = 1''))) 5
          = Inr {|sha1 (join unit_sep [''ID1'', ''='', ''NUM''])|}"
proof
  fix sha1 :: "string \<Rightarrow> string"
  have sibling: "fingerprint_tokens sha1 (fst (normalize KEYWORDS (tokenize ''x = 1''))) 5
          = Inr {|sha1 (join unit_sep [''ID1'', ''='', ''NUM''])|}"
    unfolding short_file_tokens by (simp add: fingerprint_tokens_def)
  show "norm_len (snd (process_file sha1 ''x = 1'')) = 3
     \<and> fingerprints (snd (process_file sha1 ''x = 1'')) = {||}
     \<and> norm_len (snd (process_file sha1 ''return y;'')) = 3
     \<and> fingerprints (snd (process_file sha1 ''return y;'')) = {||}
     \<and> jaccard (fingerprints (snd (process_file sha1 ''x = 1'')))
          (fingerprints (snd (process_file sha1 ''return y;''))) = 1
     \<and> fingerprint_tokens sha1 (fst (normalize KEYWORDS (tokenize ''x = 1''))) 5
          = Inr {|sha1 (join unit_sep [''ID1'', ''='', ''NUM''])|}"
    using sibling by (simp add: short_file_info jaccard_def)
qed

subsection \<open>The shingle size of the command line\<close>

lemma fingerprint_tokens_nonpositive:
  "k \<le> 0 \<Longrightarrow> fingerprint_tokens sha1 toks k = Inl ValueError"
  by (simp add: fingerprint_tokens_def)

lemma process_repo_nonpositive:
  "k \<le> 0 \<Longrightarrow> process_repo sha1 k rel_paths per_file_info = per_file_info"
  by (induction rel_paths arbitrary: per_file_info)
    (auto simp add: Let_def split_def fingerprint_tokens_nonpositive)

text \<open>
  Claim C6. A window size \<open>k \<le> 0\<close> is to be rejected before any file is processed.
  \<^verbatim>\<open>run_pipeline\<close> of \<^verbatim>\<open>tools/normalization_claude.py\<close> does not reject it: nothing looks at
  \<open>k\<close> before the files are processed; each file is stripped of comments, tokenized and
  normalized, the \<^verbatim>\<open>ValueError\<close> of \<^verbatim>\<open>fingerprint_tokens\<close> is caught by the handler of the
  loop, no file is recorded, and the run ends with no comparison and the overall
  similarity 0.
\<close>

theorem nonpositive_window_is_not_rejected:
  assumes "k \<le> 0"
  shows "run_pipeline sha1 code_files_repo1 code_files_repo2 k
           = \<lparr>per_file_info_A = [], per_file_info_B = [],
              total_comparisons = 0, overall_sim = 0\<rparr>"
  using assms
  by (simp add: run_pipeline_def process_repo_nonpositive aggregate_repo_similarity_def)

lemma generic_front_end_example:
  "tokenize_code_generic (remove_comments ''int x = 1; // one'') = [[], [], [], [], []]"
  "fst (normalize_tokens [[], [], [], [], []] JAVA_KEYWORDS) = [[], [], [], [], []]"
  by code_simp+

lemma process_repo_example:
  "process_repo sha1 5 [(''A.java'', ''int x = 1; // one'')] []
     = [(''A.java'',
         \<lparr>fingerprints = {|sha1 (join unit_sep [[], [], [], [], []])|}, norm_len = 5\<rparr>)]"
  unfolding process_repo.simps Let_def split_def generic_front_end_example
  by (simp add: fingerprint_tokens_def py_slice_def)

theorem nonpositive_window_is_not_rejected_witness:
  "\<forall>sha1 :: string \<Rightarrow> string.
     run_pipeline sha1 [(''A.java'', ''int x = 1; // one'')] [(''B.java'', ''int y = 2;'')] 0
       = \<lparr>per_file_info_A = [], per_file_info_B = [],
          total_comparisons = 0, overall_sim = 0\<rparr>
     \<and> tokenize_code_generic (remove_comments ''int x = 1; // one'') = [[], [], [], [], []]
     \<and> process_repo sha1 5 [(''A.java'', ''int x = 1; // one'')] []
       = [(''A.java'',
           \<lparr>fingerprints = {|sha1 (join unit_sep [[], [], [], [], []])|}, norm_len = 5\<rparr>)]"
proof
  fix sha1 :: "string \<Rightarrow> string"
  show "run_pipeline sha1 [(''A.java'', ''int x = 1; // one'')] [(''B.java'', ''int y = 2;'')] 0
       = \<lparr>per_file_info_A = [], per_file_info_B = [],
          total_comparisons = 0, overall_sim = 0\<rparr>
     \<and> tokenize_code_generic (remove_comments ''int x = 1; // one'') = [[], [], [], [], []]
     \<and> process_repo sha1 5 [(''A.java'', ''int x = 1; // one'')] []
       = [(''A.java'',
           \<lparr>fingerprints = {|sha1 (join unit_sep [[], [], [], [], []])|}, norm_len = 5\<rparr>)]"
    using nonpositive_window_is_not_rejected
        [of 0 sha1 "[(''A.java'', ''int x = 1; // one'')]" "[(''B.java'', ''int y = 2;'')]"]
      generic_front_end_example(1) process_repo_example [of sha1]
    by simp
qed

end
